theory Spec2Isabelle
  imports Main "HOL-Library.Sublist"
begin

section \<open>Strings\<close>

text \<open>
  A Python \<open>str\<close> is modelled as a \<^typ>\<open>string\<close>: a list of \<^typ>\<open>char\<close>, each read as one
  code point in the range U+0000 .. U+00FF. The character tables below (white space, word
  characters, lower-casing) are those of Python's \<open>str\<close> and \<open>re\<close> on that range. Text with
  code points beyond U+00FF is outside this model.
\<close>

definition isspace :: "char \<Rightarrow> bool" where
  \<comment> \<open>\<open>str.isspace\<close>: TAB, LF, VT, FF, CR, FS, GS, RS, US, space, NEL, NBSP.\<close>
  "isspace c = ((of_char c :: nat) \<in> {9, 10, 11, 12, 13, 28, 29, 30, 31, 32, 133, 160})"

definition str_strip :: "string \<Rightarrow> string" where
  \<comment> \<open>\<open>s.strip()\<close>: white space removed at both ends.\<close>
  "str_strip s = rev (dropWhile isspace (rev (dropWhile isspace s)))"

function str_split :: "char \<Rightarrow> string \<Rightarrow> string list" where
  \<comment> \<open>\<open>s.split(sep)\<close> for a separator of one character: the piece before the first
      separator, then the pieces of what follows it.\<close>
  "str_split sep s =
     (case dropWhile (\<lambda>c. c \<noteq> sep) s of
        [] \<Rightarrow> [takeWhile (\<lambda>c. c \<noteq> sep) s]
      | _ # rest \<Rightarrow> takeWhile (\<lambda>c. c \<noteq> sep) s # str_split sep rest)"
  by pat_completeness auto
termination
proof (relation "measure (\<lambda>(sep, s). length s)")
  show "wf (measure (\<lambda>(sep :: char, s :: string). length s))"
    by simp
next
  fix sep :: char and s :: string and x rest
  assume "dropWhile (\<lambda>c. c \<noteq> sep) s = x # rest"
  moreover have "length (dropWhile (\<lambda>c. c \<noteq> sep) s) \<le> length s"
    by (rule length_dropWhile_le)
  ultimately show "((sep, rest), (sep, s)) \<in> measure (\<lambda>(sep, s). length s)"
    by simp
qed

fun str_join :: "string \<Rightarrow> string list \<Rightarrow> string" where
  \<comment> \<open>\<open>sep.join(xs)\<close>\<close>
  "str_join sep [] = []"
| "str_join sep [x] = x"
| "str_join sep (x # y # ys) = x @ sep @ str_join sep (y # ys)"

section \<open>Prompt templates\<close>

text \<open>
  The five f-strings of the source, line by line. Each opens with a line break (the text
  starts right after the opening triple quote) and ends with one. The three characters
  after \<open>Pratiti\<close> in the first template (U+00E2, U+20AC, U+201C) lie partly beyond U+00FF;
  they are kept as the eight bytes the source file holds for them, so the fixed text of that
  one prompt is five characters longer here than in Python. Nothing below depends on the
  fixed text.
\<close>

definition generate_prompt :: "string \<Rightarrow> string \<Rightarrow> string" where
  "generate_prompt article_text research_context =
     ''\<newline>'' @
     ''You are Pratiti '' @ [CHR 0xC3, CHR 0xA2] @ [CHR 0xE2, CHR 0x82, CHR 0xAC] @ [CHR 0xE2, CHR 0x80, CHR 0x9C] @ '' an advanced financial research analyst. Your job is to read the news article below and produce a single blended narrative insight.\<newline>'' @
     ''\<newline>'' @
     ''Your insight must include:\<newline>'' @
     ''- A one-line summary of \"Why This Matters\"\<newline>'' @
     ''- Contextual summary of the article\<newline>'' @
     ''- Historical or global comparisons if relevant\<newline>'' @
     ''- Sector or market impact\<newline>'' @
     ''- Forward-looking commentary with reasoning\<newline>'' @
     ''\<newline>'' @
     ''Article:\<newline>'' @
     article_text @ ''\<newline>'' @
     ''\<newline>'' @
     ''Relevant research context:\<newline>'' @
     research_context @ ''\<newline>''"

definition generate_research_prompt :: "string \<Rightarrow> string" where
  "generate_research_prompt article_text =
     ''\<newline>'' @
     ''You are a senior research analyst. Based on the article below, list the most relevant and credible publicly available research papers, policy briefs, or news articles from the internet that provide supporting context or critical background.\<newline>'' @
     ''\<newline>'' @
     ''Each recommendation must include:\<newline>'' @
     ''- Title or brief summary\<newline>'' @
     ''- Source\<newline>'' @
     ''- Link\<newline>'' @
     ''\<newline>'' @
     ''Do not invent links. Only suggest links that are available publicly and are highly relevant.\<newline>'' @
     ''\<newline>'' @
     ''Article:\<newline>'' @
     article_text @ ''\<newline>''"

definition generate_tag_prompt :: "string \<Rightarrow> string" where
  "generate_tag_prompt article_text =
     ''\<newline>'' @
     ''You are a financial analyst assistant. Categorize the article below into relevant business topics or sectors such as Finance, Energy, Technology, Policy, ESG, etc. \<newline>'' @
     ''Respond with a comma-separated list of 3 to 6 tags.\<newline>'' @
     ''\<newline>'' @
     ''Article:\<newline>'' @
     article_text @ ''\<newline>''"

definition generate_sentiment_prompt :: "string \<Rightarrow> string" where
  "generate_sentiment_prompt article_text =
     ''\<newline>'' @
     ''Analyze the overall sentiment of the following article. Classify it as Positive, Negative, or Neutral. Provide only the label.\<newline>'' @
     ''\<newline>'' @
     ''Article:\<newline>'' @
     article_text @ ''\<newline>''"

definition generate_explanation_prompt :: "string \<Rightarrow> string" where
  "generate_explanation_prompt insight =
     ''\<newline>'' @
     ''Explain how the following insight was derived, focusing only on:\<newline>'' @
     ''- Sector and market impact\<newline>'' @
     ''- Forward-looking commentary with reasoning\<newline>'' @
     ''\<newline>'' @
     ''For each, identify what parts of the article contributed to the conclusions, and any assumptions or signals used.\<newline>'' @
     ''\<newline>'' @
     ''Insight:\<newline>'' @
     insight @ ''\<newline>''"

section \<open>What the generation flow derives from the model's replies\<close>

definition tags_of :: "string \<Rightarrow> string list" where
  \<comment> \<open>\<open>[tag.strip() for tag in tags_response.split(",")]\<close>\<close>
  "tags_of tags_response = map str_strip (str_split CHR '','' tags_response)"

definition insight_lines :: "string \<Rightarrow> string list" where
  \<comment> \<open>\<open>insight.split("\n")\<close>\<close>
  "insight_lines insight = str_split CHR ''\<newline>'' insight"

definition why_matters :: "string \<Rightarrow> string" where
  \<comment> \<open>\<open>insight_lines[0] if insight_lines else "N/A"\<close>\<close>
  "why_matters insight =
     (case insight_lines insight of [] \<Rightarrow> ''N/A'' | first_line # _ \<Rightarrow> first_line)"

definition full_insight :: "string \<Rightarrow> string" where
  \<comment> \<open>\<open>"\n".join(insight_lines)\<close>\<close>
  "full_insight insight = str_join ''\<newline>'' (insight_lines insight)"

section \<open>Keyword highlighting\<close>

text \<open>
  \<open>re.sub(f"\\b{re.escape(word)}\\b", f"**{word}**", text, flags=re.IGNORECASE)\<close>.
  The pattern is the escaped keyword, hence the keyword read literally, between two word
  boundaries \<open>\b\<close>, matched without regard to case. \<open>re\<close> looks for the leftmost match,
  replaces it and goes on behind it; where nothing matches it copies one character.
\<close>

definition is_word :: "char \<Rightarrow> bool" where
  \<comment> \<open>\<open>\w\<close> of a \<open>str\<close> pattern: \<open>c.isalnum() or c == "_"\<close>.\<close>
  "is_word c =
     (let n = (of_char c :: nat) in
        (48 \<le> n \<and> n \<le> 57) \<or> (65 \<le> n \<and> n \<le> 90) \<or> n = 95 \<or> (97 \<le> n \<and> n \<le> 122) \<or>
        n \<in> {170, 178, 179, 181, 185, 186, 188, 189, 190} \<or>
        (192 \<le> n \<and> n \<le> 214) \<or> (216 \<le> n \<and> n \<le> 246) \<or> 248 \<le> n)"

definition lower :: "char \<Rightarrow> char" where
  \<comment> \<open>\<open>c.lower()\<close>\<close>
  "lower c =
     (let n = (of_char c :: nat) in
        if (65 \<le> n \<and> n \<le> 90) \<or> (192 \<le> n \<and> n \<le> 214) \<or> (216 \<le> n \<and> n \<le> 222)
        then char_of (n + 32) else c)"

definition ci_equal :: "string \<Rightarrow> string \<Rightarrow> bool" where
  \<comment> \<open>equal under \<open>re.IGNORECASE\<close>\<close>
  "ci_equal a b = (map lower a = map lower b)"

definition word_boundary :: "bool \<Rightarrow> bool \<Rightarrow> bool" where
  \<comment> \<open>\<open>\b\<close>: exactly one of the characters before and after the position is a word
      character; outside the text counts as not a word character.\<close>
  "word_boundary word_before word_after = (word_before \<noteq> word_after)"

fun starts_with_word :: "string \<Rightarrow> bool" where
  "starts_with_word [] = False"
| "starts_with_word (c # cs) = is_word c"

fun match_literal :: "string \<Rightarrow> string \<Rightarrow> string option" where
  \<comment> \<open>the keyword, character by character without regard to case, at the start of a
      text: what lies behind it, or \<open>None\<close>\<close>
  "match_literal [] rest = Some rest"
| "match_literal (k # ks) [] = None"
| "match_literal (k # ks) (c # cs) = (if lower c = lower k then match_literal ks cs else None)"

definition match_here :: "string \<Rightarrow> bool \<Rightarrow> string \<Rightarrow> bool" where
  \<comment> \<open>The pattern matches at the start of \<open>rest\<close>, the character before \<open>rest\<close> being a word
      character or not (\<open>prev_is_word\<close>): a boundary, the keyword, a boundary.\<close>
  "match_here word prev_is_word rest =
     (if word_boundary prev_is_word (starts_with_word rest) then
        (case match_literal word rest of
           None \<Rightarrow> False
         | Some behind \<Rightarrow>
             word_boundary
               (if word = [] then prev_is_word else is_word (last (take (length word) rest)))
               (starts_with_word behind))
      else False)"

function re_sub_from :: "string \<Rightarrow> (string \<Rightarrow> string) \<Rightarrow> bool \<Rightarrow> string \<Rightarrow> string" where
  \<comment> \<open>The scan of \<open>re.sub\<close>; \<open>repl\<close> gives the replacement of a matched piece. An empty match
      (of the empty keyword) is replaced and the next character copied.\<close>
  "re_sub_from word repl prev_is_word [] =
     (if match_here word prev_is_word [] then repl [] else [])"
| "re_sub_from word repl prev_is_word (c # cs) =
     (if match_here word prev_is_word (c # cs) then
        (if word = [] then repl [] @ c # re_sub_from word repl (is_word c) cs
         else repl (take (length word) (c # cs)) @
              re_sub_from word repl (is_word (last (take (length word) (c # cs))))
                (drop (length word) (c # cs)))
      else c # re_sub_from word repl (is_word c) cs)"
  by pat_completeness auto
termination
  by (relation "measure (\<lambda>(word, repl, prev_is_word, text). length text)") auto

datatype py_error =
    RequestException    \<comment> \<open>the HTTP request failed in transport\<close>
  | HTTPError           \<comment> \<open>\<open>raise_for_status\<close>: a status that is not a success\<close>
  | ResponseShapeError  \<comment> \<open>the response is not JSON, or lacks \<open>choices[0].message.content\<close>\<close>
  | ReError             \<comment> \<open>\<open>re.error\<close>: a replacement template \<open>re\<close> rejects\<close>
  | JSONDecodeError     \<comment> \<open>\<open>json.load\<close> on a file that is not JSON\<close>
  | AttributeError      \<comment> \<open>\<open>insights.append\<close> on a value that is not a list\<close>

text \<open>
  A replacement without a backslash is taken literally. One with a backslash is a template
  that \<open>re\<close> parses before it scans (an escape it rejects raises \<open>re.error\<close> even when
  nothing matches). What \<open>re\<close> makes of such a template is not fixed here: it is the
  parameter \<open>compile_template\<close>, from the template to either an error or the function from
  the matched piece to its replacement.
\<close>

type_synonym template_compiler = "string \<Rightarrow> py_error + (string \<Rightarrow> string)"

definition re_sub_word :: "template_compiler \<Rightarrow> string \<Rightarrow> string \<Rightarrow> string \<Rightarrow> py_error + string" where
  "re_sub_word compile_template word repl text =
     (if CHR 0x5C \<in> set repl then
        (case compile_template repl of
           Inl e \<Rightarrow> Inl e
         | Inr expand \<Rightarrow> Inr (re_sub_from word expand False text))
      else Inr (re_sub_from word (\<lambda>matched. repl) False text))"

fun highlight_keywords :: "template_compiler \<Rightarrow> string \<Rightarrow> string list \<Rightarrow> py_error + string" where
  "highlight_keywords compile_template text [] = Inr text"
| "highlight_keywords compile_template text (word # keywords) =
     (case re_sub_word compile_template word (''**'' @ word @ ''**'') text of
        Inl e \<Rightarrow> Inl e
      | Inr text' \<Rightarrow> highlight_keywords compile_template text' keywords)"

definition no_templates :: template_compiler where
  \<comment> \<open>a template compiler that rejects every template, for evaluating on keywords
      without a backslash\<close>
  "no_templates repl = Inl ReError"

subsection \<open>The words of the specification\<close>

text \<open>
  A standalone occurrence of a keyword at index \<open>i\<close> of a text: the keyword stands there,
  up to case, with no word character right before it and none right after it.
\<close>

definition standalone_at :: "string \<Rightarrow> string \<Rightarrow> nat \<Rightarrow> bool" where
  "standalone_at k text i =
     (i + length k \<le> length text \<and>
      ci_equal (take (length k) (drop i text)) k \<and>
      (i = 0 \<or> \<not> is_word (text ! (i - 1))) \<and>
      (i + length k = length text \<or> \<not> is_word (text ! (i + length k))))"

function count_standalone_from :: "string \<Rightarrow> string \<Rightarrow> nat \<Rightarrow> nat" where
  \<comment> \<open>the standalone occurrences from index \<open>i\<close> on, counted from the left without overlap\<close>
  "count_standalone_from k text i =
     (if k = [] \<or> length text < i + length k then 0
      else if standalone_at k text i then Suc (count_standalone_from k text (i + length k))
      else count_standalone_from k text (Suc i))"
  by pat_completeness auto
termination
proof (relation "measure (\<lambda>(k, text, i). Suc (length text) - i)")
  show "wf (measure (\<lambda>(k :: string, text :: string, i). Suc (length text) - i))"
    by simp
next
  fix k t :: string and i :: nat
  assume "\<not> (k = [] \<or> length t < i + length k)"
  then have "0 < length k" and "i + length k \<le> length t"
    by simp_all
  then have "Suc (length t) - (i + length k) < Suc (length t) - i"
    by arith
  then show "((k, t, i + length k), (k, t, i)) \<in> measure (\<lambda>(k, text, i). Suc (length text) - i)"
    by simp
next
  fix k t :: string and i :: nat
  assume "\<not> (k = [] \<or> length t < i + length k)"
  then have "i \<le> length t"
    by simp
  then have "Suc (length t) - Suc i < Suc (length t) - i"
    by arith
  then show "((k, t, Suc i), (k, t, i)) \<in> measure (\<lambda>(k, text, i). Suc (length text) - i)"
    by simp
qed

definition count_standalone :: "string \<Rightarrow> string \<Rightarrow> nat" where
  "count_standalone k text = count_standalone_from k text 0"

function str_count :: "string \<Rightarrow> string \<Rightarrow> nat" where
  \<comment> \<open>\<open>text.count(sub)\<close>: the occurrences of \<open>sub\<close> in \<open>text\<close>, counted from the left without
      overlap\<close>
  "str_count sub text =
     (if sub = [] then Suc (length text)
      else if text = [] then 0
      else if prefix sub text then Suc (str_count sub (drop (length sub) text))
      else str_count sub (tl text))"
  by pat_completeness auto
termination
  by (relation "measure (\<lambda>(sub, text). length text)") auto

definition wrapped :: "string \<Rightarrow> string" where
  \<comment> \<open>the wrapped form of a keyword\<close>
  "wrapped k = ''**'' @ k @ ''**''"

section \<open>The insight store\<close>

text \<open>
  The values \<open>json.load\<close> returns and \<open>json.dump\<close> writes. A float is kept as its text.
  The file \<open>insights.json\<close> is absent (\<open>None\<close>), or holds a text that \<open>json.load\<close> rejects, or
  holds the text of a value; writing a value with \<open>json.dump\<close> and reading the file with
  \<open>json.load\<close> is taken to give the value back, the text in between is not modelled. The
  integers are those \<open>json.load\<close> can return and \<open>json.dump\<close> can write (Python refuses to
  convert between text and integers of more than 4300 digits); the records of the script
  hold strings only.
\<close>

datatype json =
    JNull | JBool bool | JInt int | JFloat string | JString string
  | JArray "json list" | JObject "(string \<times> json) list"

datatype file_content = NotJson | JsonText json

type_synonym store = "file_content option"

definition load_insights :: "store \<Rightarrow> py_error + json" where
  "load_insights st =
     (case st of
        Some NotJson \<Rightarrow> Inl JSONDecodeError
      | Some (JsonText v) \<Rightarrow> Inr v
      | None \<Rightarrow> Inr (JArray []))"

definition save_insight :: "json \<Rightarrow> store \<Rightarrow> (py_error + unit) \<times> store" where
  \<comment> \<open>The file is opened for writing only after the append: an error leaves it as it was.\<close>
  "save_insight entry st =
     (case load_insights st of
        Inl e \<Rightarrow> (Inl e, st)
      | Inr (JArray insights) \<Rightarrow> (Inr (), Some (JsonText (JArray (insights @ [entry]))))
      | Inr _ \<Rightarrow> (Inl AttributeError, st))"

section \<open>One run of the script\<close>

text \<open>
  Streamlit runs the script from top to bottom with the current value of the text area and
  of the button. What a run does to the outside is recorded as a trace of events, in
  order: the calls of the remote model, the elements put on the page, and the calls of
  \<open>save_insight\<close>. The remote model answers a call with an error or with the content of its
  first choice; its answer may depend on the calls made before.
\<close>

datatype ui_event =
    Sidebar_sentiment string        \<comment> \<open>the sidebar block, showing this sentiment\<close>
  | Subheader string
  | Write string
  | Markdown string
  | Download_button string string string   \<comment> \<open>label, data, file name\<close>
  | Error py_error                  \<comment> \<open>\<open>st.error\<close> with the exception\<close>
  | Code_traceback py_error         \<comment> \<open>\<open>st.code\<close> with the traceback\<close>

datatype event =
    Remote_call string string       \<comment> \<open>prompt, role description\<close>
  | Save_insight json
  | Ui ui_event

record world =
  trace :: "event list"
  insights_file :: store

record env =
  remote :: "(string \<times> string) list \<Rightarrow> string \<times> string \<Rightarrow> py_error + string"
  compile_template :: template_compiler
  now :: string    \<comment> \<open>\<open>datetime.now().isoformat()\<close>\<close>

type_synonym 'a action = "world \<Rightarrow> (py_error + 'a) \<times> world"

definition and_then :: "'a action \<Rightarrow> ('a \<Rightarrow> 'b action) \<Rightarrow> 'b action" where
  \<comment> \<open>one statement after another: an exception skips what follows\<close>
  "and_then m f w = (case m w of (Inl e, w') \<Rightarrow> (Inl e, w') | (Inr x, w') \<Rightarrow> f x w')"

definition emit :: "ui_event \<Rightarrow> unit action" where
  "emit u w = (Inr (), w\<lparr>trace := trace w @ [Ui u]\<rparr>)"

definition raise_or_return :: "py_error + 'a \<Rightarrow> 'a action" where
  "raise_or_return r w = (r, w)"

fun calls_of :: "event list \<Rightarrow> (string \<times> string) list" where
  "calls_of [] = []"
| "calls_of (Remote_call prompt role_description # evs) = (prompt, role_description) # calls_of evs"
| "calls_of (_ # evs) = calls_of evs"

definition query_openrouter :: "env \<Rightarrow> string \<Rightarrow> string \<Rightarrow> string action" where
  \<comment> \<open>an error of the call, or the content of the first choice, stripped\<close>
  "query_openrouter env prompt role_description w =
     ((case remote env (calls_of (trace w)) (prompt, role_description) of
         Inl e \<Rightarrow> Inl e
       | Inr content \<Rightarrow> Inr (str_strip content)),
      w\<lparr>trace := trace w @ [Remote_call prompt role_description]\<rparr>)"

definition call_save_insight :: "json \<Rightarrow> unit action" where
  "call_save_insight entry w =
     (case save_insight entry (insights_file w) of
        (r, st) \<Rightarrow> (r, w\<lparr>trace := trace w @ [Save_insight entry], insights_file := st\<rparr>))"

definition insight_entry ::
  "string \<Rightarrow> string \<Rightarrow> string \<Rightarrow> string \<Rightarrow> string \<Rightarrow> string list \<Rightarrow> string \<Rightarrow> json" where
  "insight_entry timestamp article insight research why tags sentiment =
     JObject [(''timestamp'', JString timestamp),
              (''article'', JString article),
              (''insight'', JString insight),
              (''research'', JString research),
              (''why_matters'', JString why),
              (''tags'', JArray (map JString tags)),
              (''sentiment'', JString sentiment)]"

definition domain_keywords :: "string list" where
  "domain_keywords = [''growth'', ''inflation'', ''fiscal deficit'', ''trade'', ''market'', ''RBI'', ''Fed'']"

definition generate_insight :: "env \<Rightarrow> string \<Rightarrow> string \<Rightarrow> unit action" where
  \<comment> \<open>the body of the \<open>try\<close> of the block "Generate Insight With Research"\<close>
  "generate_insight env article_text sentiment =
     and_then (query_openrouter env (generate_research_prompt article_text)
                 ''You are a research analyst helping senior executives.'') (\<lambda>research_output.
     and_then (query_openrouter env (generate_tag_prompt article_text)
                 ''You are a tagging assistant.'') (\<lambda>tags_response.
     and_then (query_openrouter env (generate_prompt article_text research_output)
                 ''You are a financial research assistant.'') (\<lambda>insight.
     and_then (query_openrouter env (generate_explanation_prompt (full_insight insight))
                 ''You explain AI-generated insights clearly.'') (\<lambda>explanation.
     and_then (emit (Subheader ''Why This Matters'')) (\<lambda>_.
     and_then (emit (Write (why_matters insight))) (\<lambda>_.
     and_then (emit (Subheader ''Full Insight'')) (\<lambda>_.
     and_then (raise_or_return (highlight_keywords (compile_template env) (full_insight insight)
                 (tags_of tags_response @ domain_keywords))) (\<lambda>highlighted.
     and_then (emit (Markdown highlighted)) (\<lambda>_.
     and_then (emit (Subheader ''How This Insight Was Derived'')) (\<lambda>_.
     and_then (emit (Write explanation)) (\<lambda>_.
     and_then (emit (Subheader ''Related Research & References'')) (\<lambda>_.
     and_then (emit (Markdown research_output)) (\<lambda>_.
     and_then (emit (Download_button ''Download Insight'' (full_insight insight) ''pratiti_insight.txt'')) (\<lambda>_.
     call_save_insight
       (insight_entry (now env) article_text (full_insight insight) research_output
          (why_matters insight) (tags_of tags_response) sentiment)))))))))))))))"

definition sentiment_block :: "env \<Rightarrow> string \<Rightarrow> world \<Rightarrow> string \<times> world" where
  \<comment> \<open>the bare \<open>except\<close> catches whatever the call raises\<close>
  "sentiment_block env article_text w =
     (if article_text \<noteq> [] then
        (case query_openrouter env (generate_sentiment_prompt article_text)
                ''You are a sentiment classifier.'' w of
           (Inl e, w') \<Rightarrow> (''Error detecting sentiment.'', w')
         | (Inr sentiment, w') \<Rightarrow> (sentiment, w'))
      else ([], w))"

definition sidebar_block :: "string \<Rightarrow> world \<Rightarrow> world" where
  "sidebar_block sentiment w =
     (if sentiment \<noteq> [] then w\<lparr>trace := trace w @ [Ui (Sidebar_sentiment sentiment)]\<rparr> else w)"

definition generation_block :: "env \<Rightarrow> string \<Rightarrow> bool \<Rightarrow> string \<Rightarrow> world \<Rightarrow> world" where
  \<comment> \<open>\<open>if article_text and st.button(...)\<close>, the \<open>try\<close> and its \<open>except Exception\<close>\<close>
  "generation_block env article_text button sentiment w =
     (if article_text \<noteq> [] \<and> button then
        (case generate_insight env article_text sentiment w of
           (Inl e, w') \<Rightarrow> w'\<lparr>trace := trace w' @ [Ui (Error e), Ui (Code_traceback e)]\<rparr>
         | (Inr _, w') \<Rightarrow> w')
      else w)"

definition run_script :: "env \<Rightarrow> string \<Rightarrow> bool \<Rightarrow> world \<Rightarrow> world" where
  "run_script env article_text button w =
     (case sentiment_block env article_text w of
        (sentiment, w') \<Rightarrow>
          generation_block env article_text button sentiment (sidebar_block sentiment w'))"

subsection \<open>Example environments\<close>

definition empty_world :: world where
  \<comment> \<open>nothing has happened yet and \<open>insights.json\<close> does not exist\<close>
  "empty_world = \<lparr>trace = [], insights_file = None\<rparr>"

definition article_demo :: string where
  "article_demo = ''Inflation rose 2% in Q1.''"

fun remote_down :: "(string \<times> string) list \<Rightarrow> string \<times> string \<Rightarrow> py_error + string" where
  \<comment> \<open>a remote model that cannot be reached\<close>
  "remote_down history call = Inl RequestException"

definition env_down :: env where
  "env_down = \<lparr>remote = remote_down, compile_template = no_templates, now = ''2024-05-01T09:30:00''\<rparr>"

fun remote_demo :: "(string \<times> string) list \<Rightarrow> string \<times> string \<Rightarrow> py_error + string" where
  \<comment> \<open>a remote model that answers every call and is not deterministic on sentiment: its
      first answer is Positive, any later one Negative\<close>
  "remote_demo history (prompt, role_description) =
     (if role_description = ''You are a sentiment classifier.'' then
        (if history = [] then Inr ''Positive'' else Inr ''Negative'')
      else if role_description = ''You are a research analyst helping senior executives.'' then
        Inr ''No public references.''
      else if role_description = ''You are a tagging assistant.'' then
        Inr ''Finance, Policy''
      else if role_description = ''You are a financial research assistant.'' then
        Inr ''Prices up.\<newline>More soon.''
      else Inr ''From the article.'')"

definition env_demo :: env where
  "env_demo = \<lparr>remote = remote_demo, compile_template = no_templates, now = ''2024-05-01T09:30:00''\<rparr>"

section \<open>Properties\<close>

subsection \<open>Splitting and joining\<close>

declare str_split.simps [simp del]

lemma str_split_last_piece:
  assumes "dropWhile (\<lambda>c. c \<noteq> sep) s = []"
  shows "str_split sep s = [s]"
proof -
  have "takeWhile (\<lambda>c. c \<noteq> sep) s @ dropWhile (\<lambda>c. c \<noteq> sep) s = s"
    by (rule takeWhile_dropWhile_id)
  with assms have "takeWhile (\<lambda>c. c \<noteq> sep) s = s"
    by (simp only: append_Nil2)
  with assms show ?thesis
    by (subst str_split.simps) (simp only: list.case)
qed

lemma str_split_piece:
  assumes "dropWhile (\<lambda>c. c \<noteq> sep) s = x # rest"
  shows "str_split sep s = takeWhile (\<lambda>c. c \<noteq> sep) s # str_split sep rest"
  using assms by (subst str_split.simps) (simp only: list.case)

lemma dropWhile_neq_Cons:
  assumes "dropWhile (\<lambda>c. c \<noteq> sep) s = x # rest"
  shows "x = sep" and "s = takeWhile (\<lambda>c. c \<noteq> sep) s @ sep # rest"
proof -
  show "x = sep"
    using assms hd_dropWhile [of "\<lambda>c. c \<noteq> sep" s] by simp
  then show "s = takeWhile (\<lambda>c. c \<noteq> sep) s @ sep # rest"
    using assms takeWhile_dropWhile_id [of "\<lambda>c. c \<noteq> sep" s] by simp
qed





lemma length_str_split: "length (str_split sep s) = Suc (count_list s sep)"
proof (induction sep s rule: str_split.induct)
  case (1 sep s)
  show ?case
  proof (cases "dropWhile (\<lambda>c. c \<noteq> sep) s")
    case Nil
    then have "sep \<notin> set s"
      by (auto simp: dropWhile_eq_Nil_conv)
    then have "count_list s sep = 0"
      by (simp add: count_list_0_iff)
    then show ?thesis
      by (simp add: str_split_last_piece [OF Nil])
  next
    case (Cons x rest)
    have s: "s = takeWhile (\<lambda>c. c \<noteq> sep) s @ sep # rest"
      by (rule dropWhile_neq_Cons(2) [OF Cons])
    have "sep \<notin> set (takeWhile (\<lambda>c. c \<noteq> sep) s)"
      by (auto dest: set_takeWhileD)
    then have "count_list (takeWhile (\<lambda>c. c \<noteq> sep) s) sep = 0"
      by (simp add: count_list_0_iff)
    then have "count_list s sep = Suc (count_list rest sep)"
      by (subst s) simp
    with "1.IH" [OF Cons] show ?thesis
      by (simp add: str_split_piece [OF Cons])
  qed
qed

lemma str_split_no_sep:
  assumes "sep \<notin> set a"
  shows "str_split sep a = [a]"
proof -
  from assms have "dropWhile (\<lambda>c. c \<noteq> sep) a = []"
    by (auto simp: dropWhile_eq_Nil_conv)
  then show ?thesis
    by (rule str_split_last_piece)
qed

lemma str_split_append:
  assumes "sep \<notin> set a"
  shows "str_split sep (a @ sep # b) = a # str_split sep b"
proof -
  from assms have a: "\<And>x. x \<in> set a \<Longrightarrow> x \<noteq> sep"
    by auto
  have t: "takeWhile (\<lambda>c. c \<noteq> sep) (a @ sep # b) = a"
    and d: "dropWhile (\<lambda>c. c \<noteq> sep) (a @ sep # b) = sep # b"
    by (simp_all add: a)
  from str_split_piece [OF d] t show ?thesis
    by simp
qed

text \<open>
  C7. The tags are the pieces of the response between its commas, each stripped, in
  their order: for \<open>Finance, Policy, Inflation\<close> the three tags \<open>Finance\<close>, \<open>Policy\<close>,
  \<open>Inflation\<close>. Nothing is dropped or merged: there is one tag more than there are commas,
  the first tag is what stands before the first comma and the others are the tags of what
  follows it; a repeated tag and an empty piece both stay.
\<close>

theorem tags_split_and_trimmed:
  "tags_of ''Finance, Policy, Inflation'' = [''Finance'', ''Policy'', ''Inflation''] \<and>
   length (tags_of tags_response) = Suc (count_list tags_response CHR '','') \<and>
   (CHR '','' \<notin> set a \<longrightarrow> tags_of (a @ '','' @ b) = str_strip a # tags_of b) \<and>
   (CHR '','' \<notin> set a \<longrightarrow> tags_of a = [str_strip a]) \<and>
   tags_of ''Policy,, Policy'' = [''Policy'', '''', ''Policy'']"
proof (intro conjI impI)
  show "tags_of ''Finance, Policy, Inflation'' = [''Finance'', ''Policy'', ''Inflation'']"
    by code_simp
  show "length (tags_of tags_response) = Suc (count_list tags_response CHR '','')"
    by (simp add: tags_of_def length_str_split)
  show "tags_of (a @ '','' @ b) = str_strip a # tags_of b" if "CHR '','' \<notin> set a"
    using that by (simp add: tags_of_def str_split_append)
  show "tags_of a = [str_strip a]" if "CHR '','' \<notin> set a"
    using that by (simp add: tags_of_def str_split_no_sep)
  show "tags_of ''Policy,, Policy'' = [''Policy'', '''', ''Policy'']"
    by code_simp
qed

theorem tags_split_and_trimmed_witness:
  "CHR '','' \<notin> set ''Finance '' \<and>
   tags_of (''Finance '' @ '','' @ '' Policy'') = str_strip ''Finance '' # tags_of '' Policy'' \<and>
   tags_of ''Finance '' = [str_strip ''Finance '']"
proof -
  have h: "CHR '','' \<notin> set ''Finance ''"
    by simp
  show ?thesis
    using h tags_split_and_trimmed [of "''''" "''Finance ''" "'' Policy''"] by blast
qed

text \<open>
  C3. On the empty narrative the code does not give the placeholder \<open>N/A\<close>: splitting the
  empty string gives one empty line, so the list of lines is not empty and its first
  element, the empty string, is taken.
\<close>

theorem why_matters_of_empty_narrative:
  "insight_lines '''' = [''''] \<and> why_matters '''' = '''' \<and> why_matters '''' \<noteq> ''N/A''"
  by code_simp


subsection \<open>Prompts\<close>

lemma sublist_behind: "sublist xs ys \<Longrightarrow> sublist xs (ps @ ys)"
  by (auto simp: sublist_def) (metis append.assoc)

text \<open>
  C5. Each of the five prompt builders returns a string that holds the article text it is
  given (the explanation builder: the insight text) as a contiguous piece, whatever the
  research context.
\<close>

theorem prompts_contain_article:
  assumes "article_text \<noteq> []" and "insight \<noteq> []"
  shows "sublist article_text (generate_prompt article_text research_context) \<and>
     sublist article_text (generate_research_prompt article_text) \<and>
     sublist article_text (generate_tag_prompt article_text) \<and>
     sublist article_text (generate_sentiment_prompt article_text) \<and>
     sublist insight (generate_explanation_prompt insight)"
  unfolding generate_prompt_def generate_research_prompt_def generate_tag_prompt_def
    generate_sentiment_prompt_def generate_explanation_prompt_def
  by (intro conjI; (rule sublist_append_rightI | rule sublist_behind)+)

theorem prompts_contain_article_witness:
  "article_demo \<noteq> [] \<and> ''Prices up.'' \<noteq> [] \<and>
   sublist article_demo (generate_prompt article_demo ''No public references.'') \<and>
   sublist article_demo (generate_research_prompt article_demo) \<and>
   sublist article_demo (generate_tag_prompt article_demo) \<and>
   sublist article_demo (generate_sentiment_prompt article_demo) \<and>
   sublist ''Prices up.'' (generate_explanation_prompt ''Prices up.'')"
proof -
  have h1: "article_demo \<noteq> []"
    by (simp add: article_demo_def)
  have h2: "''Prices up.'' \<noteq> []"
    by simp
  show ?thesis
    using h1 h2 prompts_contain_article [OF h1 h2, of "''No public references.''"] by blast
qed

subsection \<open>The store\<close>

text \<open>
  C4. Loading a store that has no file gives the empty sequence. Whenever the store
  loads as a sequence, saving a record succeeds and the store then loads as that
  sequence with the record as its last element, the record as it was given.
\<close>

theorem load_after_save:
  "load_insights None = Inr (JArray []) \<and>
   (\<forall>st insights r. load_insights st = Inr (JArray insights) \<longrightarrow>
      (\<exists>st'. save_insight r st = (Inr (), st') \<and>
             load_insights st' = Inr (JArray (insights @ [r])) \<and>
             last (insights @ [r]) = r))"
  by (auto simp: load_insights_def save_insight_def split: option.splits file_content.splits)

theorem load_after_save_witness:
  "load_insights (Some (JsonText (JArray [JString ''first'']))) = Inr (JArray [JString ''first'']) \<and>
   (\<exists>st'. save_insight (JString ''second'') (Some (JsonText (JArray [JString ''first'']))) = (Inr (), st') \<and>
          load_insights st' = Inr (JArray ([JString ''first''] @ [JString ''second''])) \<and>
          last ([JString ''first''] @ [JString ''second'']) = JString ''second'')"
proof -
  have h: "load_insights (Some (JsonText (JArray [JString ''first'']))) = Inr (JArray [JString ''first''])"
    by (simp add: load_insights_def)
  show ?thesis
    using h load_after_save by blast
qed

subsection \<open>Keyword highlighting\<close>

text \<open>
  C8. Highlighting with the empty list of keywords returns the text as it is.
\<close>

theorem highlight_no_keywords: "highlight_keywords tc text [] = Inr text"
  by simp

subsection \<open>Failures of the remote model\<close>

lemma calls_of_append: "calls_of (xs @ ys) = calls_of xs @ calls_of ys"
  by (induction xs rule: calls_of.induct) simp_all

text \<open>
  C1. When the research call, the first call of the generation block, fails, the block
  ends there: of the trace it adds only that call and the display of the error, so the
  tag, narrative and explanation calls are not made, \<open>save_insight\<close> is not called, and the
  store is left as it was.
\<close>

theorem research_failure_aborts:
  assumes "article_text \<noteq> []" and "button"
    and "remote env (calls_of (trace w))
           (generate_research_prompt article_text,
            ''You are a research analyst helping senior executives.'') = Inl e"
  shows "generation_block env article_text button sentiment w =
           w\<lparr>trace := trace w @
               [Remote_call (generate_research_prompt article_text)
                  ''You are a research analyst helping senior executives.'',
                Ui (Error e), Ui (Code_traceback e)]\<rparr> \<and>
         insights_file (generation_block env article_text button sentiment w) = insights_file w"
  using assms
  by (simp add: generation_block_def generate_insight_def and_then_def query_openrouter_def)

theorem research_failure_aborts_witness:
  "article_demo \<noteq> [] \<and> True \<and>
   remote env_down (calls_of (trace empty_world))
     (generate_research_prompt article_demo,
      ''You are a research analyst helping senior executives.'') = Inl RequestException \<and>
   generation_block env_down article_demo True ''Neutral'' empty_world =
     empty_world\<lparr>trace := trace empty_world @
       [Remote_call (generate_research_prompt article_demo)
          ''You are a research analyst helping senior executives.'',
        Ui (Error RequestException), Ui (Code_traceback RequestException)]\<rparr> \<and>
   insights_file (generation_block env_down article_demo True ''Neutral'' empty_world) =
     insights_file empty_world"
proof -
  have h1: "article_demo \<noteq> []"
    by (simp add: article_demo_def)
  have h2: "remote env_down (calls_of (trace empty_world))
     (generate_research_prompt article_demo,
      ''You are a research analyst helping senior executives.'') = Inl RequestException"
    by (simp add: env_down_def)
  show ?thesis
    using h1 h2 research_failure_aborts [OF h1 TrueI h2, of "''Neutral''"] by blast
qed

text \<open>
  C9. When the sentiment call of the preview fails, with whatever error, no error is
  shown: the sentiment is the placeholder \<open>Error detecting sentiment.\<close>, the sidebar shows
  it, and the run goes on to the generation block with that value.
\<close>

theorem sentiment_failure_recovered:
  assumes "article_text \<noteq> []"
    and "remote env (calls_of (trace w))
           (generate_sentiment_prompt article_text, ''You are a sentiment classifier.'') = Inl e"
  shows "sentiment_block env article_text w =
           (''Error detecting sentiment.'',
            w\<lparr>trace := trace w @
                [Remote_call (generate_sentiment_prompt article_text)
                   ''You are a sentiment classifier.'']\<rparr>) \<and>
         run_script env article_text button w =
           generation_block env article_text button ''Error detecting sentiment.''
             (w\<lparr>trace := trace w @
                 [Remote_call (generate_sentiment_prompt article_text)
                    ''You are a sentiment classifier.'',
                  Ui (Sidebar_sentiment ''Error detecting sentiment.'')]\<rparr>)"
  using assms
  by (simp add: run_script_def sentiment_block_def sidebar_block_def query_openrouter_def)

theorem sentiment_failure_recovered_witness:
  "article_demo \<noteq> [] \<and>
   remote env_down (calls_of (trace empty_world))
     (generate_sentiment_prompt article_demo, ''You are a sentiment classifier.'') =
     Inl RequestException \<and>
   sentiment_block env_down article_demo empty_world =
     (''Error detecting sentiment.'',
      empty_world\<lparr>trace := trace empty_world @
          [Remote_call (generate_sentiment_prompt article_demo)
             ''You are a sentiment classifier.'']\<rparr>) \<and>
   run_script env_down article_demo False empty_world =
     generation_block env_down article_demo False ''Error detecting sentiment.''
       (empty_world\<lparr>trace := trace empty_world @
           [Remote_call (generate_sentiment_prompt article_demo)
              ''You are a sentiment classifier.'',
            Ui (Sidebar_sentiment ''Error detecting sentiment.'')]\<rparr>)"
proof -
  have h1: "article_demo \<noteq> []"
    by (simp add: article_demo_def)
  have h2: "remote env_down (calls_of (trace empty_world))
     (generate_sentiment_prompt article_demo, ''You are a sentiment classifier.'') =
     Inl RequestException"
    by (simp add: env_down_def)
  show ?thesis
    using h1 h2 sentiment_failure_recovered [OF h1 h2, of False] by blast
qed

subsection \<open>The sentiment of a run\<close>

lemma generation_block_trace:
  "\<exists>new. trace (generation_block env a b s w) = trace w @ new \<and>
     prefix (map snd (calls_of new))
       [''You are a research analyst helping senior executives.'', ''You are a tagging assistant.'',
        ''You are a financial research assistant.'', ''You explain AI-generated insights clearly.''] \<and>
     (\<forall>entry. Save_insight entry \<in> set new \<longrightarrow>
        (\<exists>ts i r wm tg. entry = insight_entry ts a i r wm tg s))"
  unfolding generation_block_def generate_insight_def and_then_def query_openrouter_def emit_def
    raise_or_return_def call_save_insight_def
  by (auto split: sum.splits prod.splits simp: calls_of_append; blast)

lemma demo_strips:
  "str_strip ''Positive'' = ''Positive''"
  "str_strip ''Negative'' = ''Negative''"
  "str_strip ''No public references.'' = ''No public references.''"
  "str_strip ''Finance, Policy'' = ''Finance, Policy''"
  "str_strip ''Prices up.\<newline>More soon.'' = ''Prices up.\<newline>More soon.''"
  "str_strip ''From the article.'' = ''From the article.''"
  by code_simp+

lemma demo_tags: "tags_of ''Finance, Policy'' = [''Finance'', ''Policy'']"
  by code_simp

lemma demo_highlight:
  "highlight_keywords no_templates ''Prices up.\<newline>More soon.''
     (''Finance'' # ''Policy'' # domain_keywords) = Inr ''Prices up.\<newline>More soon.''"
  by code_simp

lemma demo_lines:
  "full_insight ''Prices up.\<newline>More soon.'' = ''Prices up.\<newline>More soon.''"
  "why_matters ''Prices up.\<newline>More soon.'' = ''Prices up.''"
  by code_simp+

lemma article_demo_not_empty: "article_demo \<noteq> []"
  by (simp add: article_demo_def)

text \<open>
  The run that shows the preview for the example article, and the run with the button
  pressed that follows it. The example remote model answers Positive to the first
  sentiment call and Negative to the second.
\<close>

lemma demo_preview_run:
  "run_script env_demo article_demo False empty_world =
     \<lparr>trace =
        [Remote_call (generate_sentiment_prompt article_demo) ''You are a sentiment classifier.'',
         Ui (Sidebar_sentiment ''Positive'')],
      insights_file = None\<rparr>"
  by (simp add: run_script_def sentiment_block_def sidebar_block_def generation_block_def
      query_openrouter_def env_demo_def empty_world_def demo_strips article_demo_not_empty)

lemma demo_click_after_preview:
  "run_script env_demo article_demo True (run_script env_demo article_demo False empty_world) =
     \<lparr>trace =
        [Remote_call (generate_sentiment_prompt article_demo) ''You are a sentiment classifier.'',
         Ui (Sidebar_sentiment ''Positive''),
         Remote_call (generate_sentiment_prompt article_demo) ''You are a sentiment classifier.'',
         Ui (Sidebar_sentiment ''Negative''),
         Remote_call (generate_research_prompt article_demo)
           ''You are a research analyst helping senior executives.'',
         Remote_call (generate_tag_prompt article_demo) ''You are a tagging assistant.'',
         Remote_call (generate_prompt article_demo ''No public references.'')
           ''You are a financial research assistant.'',
         Remote_call (generate_explanation_prompt ''Prices up.\<newline>More soon.'')
           ''You explain AI-generated insights clearly.'',
         Ui (Subheader ''Why This Matters''),
         Ui (Write ''Prices up.''),
         Ui (Subheader ''Full Insight''),
         Ui (Markdown ''Prices up.\<newline>More soon.''),
         Ui (Subheader ''How This Insight Was Derived''),
         Ui (Write ''From the article.''),
         Ui (Subheader ''Related Research & References''),
         Ui (Markdown ''No public references.''),
         Ui (Download_button ''Download Insight'' ''Prices up.\<newline>More soon.'' ''pratiti_insight.txt''),
         Save_insight (insight_entry ''2024-05-01T09:30:00'' article_demo ''Prices up.\<newline>More soon.''
            ''No public references.'' ''Prices up.'' [''Finance'', ''Policy''] ''Negative'')],
      insights_file = Some (JsonText (JArray
         [insight_entry ''2024-05-01T09:30:00'' article_demo ''Prices up.\<newline>More soon.''
            ''No public references.'' ''Prices up.'' [''Finance'', ''Policy''] ''Negative'']))\<rparr>"
  unfolding demo_preview_run
  by (simp del: highlight_keywords.simps add: run_script_def sentiment_block_def sidebar_block_def
      generation_block_def generate_insight_def and_then_def query_openrouter_def emit_def
      raise_or_return_def call_save_insight_def save_insight_def load_insights_def env_demo_def
      demo_strips demo_tags demo_highlight demo_lines article_demo_not_empty)

text \<open>
  C2. Whenever article text is present, a run of the script makes the sentiment call and
  shows its result in the sidebar, button or no button: this is the preview. The button
  is only on the page of such a run, so a run with the button pressed follows a preview
  run. That run begins with the sentiment call again, before the research, tag, narrative
  and explanation calls, and the record it saves carries the sentiment answered to this
  second call, not the one the preview run showed.
\<close>

theorem sentiment_recomputed_on_generation:
  assumes "article_text \<noteq> []"
  shows "\<exists>preview sentiment new.
     preview =
       (case remote env (calls_of (trace w))
               (generate_sentiment_prompt article_text, ''You are a sentiment classifier.'') of
          Inl e \<Rightarrow> ''Error detecting sentiment.'' | Inr content \<Rightarrow> str_strip content) \<and>
     run_script env article_text False w =
       w\<lparr>trace := trace w @
           [Remote_call (generate_sentiment_prompt article_text) ''You are a sentiment classifier.''] @
           (if preview = [] then [] else [Ui (Sidebar_sentiment preview)])\<rparr> \<and>
     sentiment =
       (case remote env
               (calls_of (trace w) @
                  [(generate_sentiment_prompt article_text, ''You are a sentiment classifier.'')])
               (generate_sentiment_prompt article_text, ''You are a sentiment classifier.'') of
          Inl e \<Rightarrow> ''Error detecting sentiment.'' | Inr content \<Rightarrow> str_strip content) \<and>
     trace (run_script env article_text True (run_script env article_text False w)) =
       trace w @
       [Remote_call (generate_sentiment_prompt article_text) ''You are a sentiment classifier.''] @
       (if preview = [] then [] else [Ui (Sidebar_sentiment preview)]) @
       [Remote_call (generate_sentiment_prompt article_text) ''You are a sentiment classifier.''] @
       (if sentiment = [] then [] else [Ui (Sidebar_sentiment sentiment)]) @ new \<and>
     prefix (map snd (calls_of new))
       [''You are a research analyst helping senior executives.'', ''You are a tagging assistant.'',
        ''You are a financial research assistant.'', ''You explain AI-generated insights clearly.''] \<and>
     (\<forall>entry. Save_insight entry \<in> set new \<longrightarrow>
        (\<exists>ts i r wm tg. entry = insight_entry ts article_text i r wm tg sentiment))"
proof -
  let ?call = "Remote_call (generate_sentiment_prompt article_text) ''You are a sentiment classifier.''"
  let ?c = "(generate_sentiment_prompt article_text, ''You are a sentiment classifier.'')"
  define preview where "preview =
    (case remote env (calls_of (trace w)) ?c of
       Inl e \<Rightarrow> ''Error detecting sentiment.'' | Inr content \<Rightarrow> str_strip content)"
  define w1 where "w1 = w\<lparr>trace := trace w @ [?call] @
    (if preview = [] then [] else [Ui (Sidebar_sentiment preview)])\<rparr>"
  have run1: "run_script env article_text False w = w1"
    using assms
    by (cases "remote env (calls_of (trace w)) ?c")
      (simp_all add: run_script_def sentiment_block_def sidebar_block_def generation_block_def
        query_openrouter_def preview_def w1_def)
  have calls1: "calls_of (trace w1) = calls_of (trace w) @ [?c]"
    by (simp add: w1_def calls_of_append)
  define sentiment where "sentiment =
    (case remote env (calls_of (trace w) @ [?c]) ?c of
       Inl e \<Rightarrow> ''Error detecting sentiment.'' | Inr content \<Rightarrow> str_strip content)"
  define w2 where "w2 = w1\<lparr>trace := trace w1 @ [?call]\<rparr>"
  have sb: "sentiment_block env article_text w1 = (sentiment, w2)"
    using assms
    by (cases "remote env (calls_of (trace w) @ [?c]) ?c")
      (simp_all add: sentiment_block_def query_openrouter_def calls1 sentiment_def w2_def)
  obtain new
    where new: "trace (generation_block env article_text True sentiment (sidebar_block sentiment w2)) =
         trace (sidebar_block sentiment w2) @ new"
    and calls: "prefix (map snd (calls_of new))
       [''You are a research analyst helping senior executives.'', ''You are a tagging assistant.'',
        ''You are a financial research assistant.'', ''You explain AI-generated insights clearly.'']"
    and saves: "\<forall>entry. Save_insight entry \<in> set new \<longrightarrow>
        (\<exists>ts i r wm tg. entry = insight_entry ts article_text i r wm tg sentiment)"
    using generation_block_trace [of env article_text True sentiment "sidebar_block sentiment w2"]
    by blast
  have run2: "run_script env article_text True w1 =
      generation_block env article_text True sentiment (sidebar_block sentiment w2)"
    by (simp add: run_script_def sb)
  have before: "trace (sidebar_block sentiment w2) =
       trace w @ [?call] @ (if preview = [] then [] else [Ui (Sidebar_sentiment preview)]) @
       [?call] @ (if sentiment = [] then [] else [Ui (Sidebar_sentiment sentiment)])"
    by (simp add: sidebar_block_def w2_def w1_def)
  have "trace (run_script env article_text True w1) =
       trace w @ [?call] @ (if preview = [] then [] else [Ui (Sidebar_sentiment preview)]) @
       [?call] @ (if sentiment = [] then [] else [Ui (Sidebar_sentiment sentiment)]) @ new"
    by (simp only: run2 new before append_assoc)
  then have both: "trace (run_script env article_text True (run_script env article_text False w)) =
       trace w @ [?call] @ (if preview = [] then [] else [Ui (Sidebar_sentiment preview)]) @
       [?call] @ (if sentiment = [] then [] else [Ui (Sidebar_sentiment sentiment)]) @ new"
    by (simp only: run1)
  show ?thesis
  proof (rule exI [of _ preview], rule exI [of _ sentiment], rule exI [of _ new], intro conjI)
    show "preview =
       (case remote env (calls_of (trace w)) ?c of
          Inl e \<Rightarrow> ''Error detecting sentiment.'' | Inr content \<Rightarrow> str_strip content)"
      by (rule preview_def)
    show "run_script env article_text False w =
       w\<lparr>trace := trace w @ [?call] @
           (if preview = [] then [] else [Ui (Sidebar_sentiment preview)])\<rparr>"
      by (simp only: run1 w1_def)
    show "sentiment =
       (case remote env (calls_of (trace w) @ [?c]) ?c of
          Inl e \<Rightarrow> ''Error detecting sentiment.'' | Inr content \<Rightarrow> str_strip content)"
      by (rule sentiment_def)
    show "trace (run_script env article_text True (run_script env article_text False w)) =
       trace w @ [?call] @ (if preview = [] then [] else [Ui (Sidebar_sentiment preview)]) @
       [?call] @ (if sentiment = [] then [] else [Ui (Sidebar_sentiment sentiment)]) @ new"
      by (rule both)
    show "prefix (map snd (calls_of new))
       [''You are a research analyst helping senior executives.'', ''You are a tagging assistant.'',
        ''You are a financial research assistant.'', ''You explain AI-generated insights clearly.'']"
      by (rule calls)
    show "\<forall>entry. Save_insight entry \<in> set new \<longrightarrow>
        (\<exists>ts i r wm tg. entry = insight_entry ts article_text i r wm tg sentiment)"
      by (rule saves)
  qed
qed

theorem sentiment_recomputed_on_generation_witness:
  "article_demo \<noteq> [] \<and>
   (\<exists>preview sentiment new.
     preview =
       (case remote env_demo (calls_of (trace empty_world))
               (generate_sentiment_prompt article_demo, ''You are a sentiment classifier.'') of
          Inl e \<Rightarrow> ''Error detecting sentiment.'' | Inr content \<Rightarrow> str_strip content) \<and>
     run_script env_demo article_demo False empty_world =
       empty_world\<lparr>trace := trace empty_world @
           [Remote_call (generate_sentiment_prompt article_demo) ''You are a sentiment classifier.''] @
           (if preview = [] then [] else [Ui (Sidebar_sentiment preview)])\<rparr> \<and>
     sentiment =
       (case remote env_demo
               (calls_of (trace empty_world) @
                  [(generate_sentiment_prompt article_demo, ''You are a sentiment classifier.'')])
               (generate_sentiment_prompt article_demo, ''You are a sentiment classifier.'') of
          Inl e \<Rightarrow> ''Error detecting sentiment.'' | Inr content \<Rightarrow> str_strip content) \<and>
     trace (run_script env_demo article_demo True (run_script env_demo article_demo False empty_world)) =
       trace empty_world @
       [Remote_call (generate_sentiment_prompt article_demo) ''You are a sentiment classifier.''] @
       (if preview = [] then [] else [Ui (Sidebar_sentiment preview)]) @
       [Remote_call (generate_sentiment_prompt article_demo) ''You are a sentiment classifier.''] @
       (if sentiment = [] then [] else [Ui (Sidebar_sentiment sentiment)]) @ new \<and>
     prefix (map snd (calls_of new))
       [''You are a research analyst helping senior executives.'', ''You are a tagging assistant.'',
        ''You are a financial research assistant.'', ''You explain AI-generated insights clearly.''] \<and>
     (\<forall>entry. Save_insight entry \<in> set new \<longrightarrow>
        (\<exists>ts i r wm tg. entry = insight_entry ts article_demo i r wm tg sentiment))) \<and>
   Ui (Sidebar_sentiment ''Positive'') \<in>
     set (trace (run_script env_demo article_demo False empty_world)) \<and>
   Save_insight (insight_entry ''2024-05-01T09:30:00'' article_demo ''Prices up.\<newline>More soon.''
      ''No public references.'' ''Prices up.'' [''Finance'', ''Policy''] ''Negative'')
     \<in> set (trace (run_script env_demo article_demo True
                     (run_script env_demo article_demo False empty_world))) \<and>
   insights_file (run_script env_demo article_demo True
                    (run_script env_demo article_demo False empty_world)) =
     Some (JsonText (JArray
       [insight_entry ''2024-05-01T09:30:00'' article_demo ''Prices up.\<newline>More soon.''
          ''No public references.'' ''Prices up.'' [''Finance'', ''Policy''] ''Negative'']))"
proof -
  have h: "article_demo \<noteq> []"
    by (rule article_demo_not_empty)
  have shown: "Ui (Sidebar_sentiment ''Positive'') \<in>
      set (trace (run_script env_demo article_demo False empty_world))"
    by (simp add: demo_preview_run)
  have saved: "Save_insight (insight_entry ''2024-05-01T09:30:00'' article_demo
        ''Prices up.\<newline>More soon.'' ''No public references.'' ''Prices up.''
        [''Finance'', ''Policy''] ''Negative'')
      \<in> set (trace (run_script env_demo article_demo True
                      (run_script env_demo article_demo False empty_world)))"
    and stored: "insights_file (run_script env_demo article_demo True
                    (run_script env_demo article_demo False empty_world)) =
      Some (JsonText (JArray
        [insight_entry ''2024-05-01T09:30:00'' article_demo ''Prices up.\<newline>More soon.''
           ''No public references.'' ''Prices up.'' [''Finance'', ''Policy''] ''Negative'']))"
    by (simp_all add: demo_click_after_preview)
  show ?thesis
    by (intro conjI h shown saved stored
        sentiment_recomputed_on_generation [OF h, of env_demo empty_world])
qed

subsection \<open>Highlighting one keyword\<close>

lemma is_word_lower: "is_word (lower c) = is_word c"
  unfolding is_word_def lower_def Let_def
  by (auto split: if_splits)

lemma lower_eq_is_word: "lower c = lower d \<Longrightarrow> is_word c = is_word d"
  by (metis is_word_lower)

lemma star_not_word: "\<not> is_word CHR ''*''"
  by (simp add: is_word_def)

lemma match_literal_iff:
  "match_literal k rest = Some behind \<longleftrightarrow>
     length k \<le> length rest \<and> ci_equal (take (length k) rest) k \<and> behind = drop (length k) rest"
  by (induction k rest rule: match_literal.induct) (auto simp: ci_equal_def)

lemma ci_equal_hd:
  assumes "ci_equal m k" and "k \<noteq> []"
  shows "m \<noteq> []" and "is_word (hd m) = is_word (hd k)" and "is_word (last m) = is_word (last k)"
proof -
  from assms have len: "length m = length k"
    unfolding ci_equal_def by (metis length_map)
  with assms show "m \<noteq> []"
    by auto
  then have "lower (hd m) = lower (hd k)"
    using assms unfolding ci_equal_def by (metis hd_map)
  then show "is_word (hd m) = is_word (hd k)"
    by (rule lower_eq_is_word)
  have "lower (last m) = lower (last k)"
    using assms \<open>m \<noteq> []\<close> unfolding ci_equal_def by (metis last_map)
  then show "is_word (last m) = is_word (last k)"
    by (rule lower_eq_is_word)
qed

lemma starts_with_word_hd: "starts_with_word rest = (rest \<noteq> [] \<and> is_word (hd rest))"
  by (cases rest) simp_all

text \<open>For a keyword that begins and ends with a word character, the two boundaries say:
  no word character before, none behind.\<close>

lemma match_here_iff:
  assumes "k \<noteq> []" and "is_word (hd k)" and "is_word (last k)"
  shows "match_here k prev_is_word rest \<longleftrightarrow>
           \<not> prev_is_word \<and> length k \<le> length rest \<and> ci_equal (take (length k) rest) k \<and>
           \<not> starts_with_word (drop (length k) rest)"
proof (cases "length k \<le> length rest \<and> ci_equal (take (length k) rest) k")
  case False
  then have "match_literal k rest = None"
    using match_literal_iff [of k rest] by (cases "match_literal k rest") auto
  with False show ?thesis
    by (auto simp: match_here_def)
next
  case True
  then have ml: "match_literal k rest = Some (drop (length k) rest)"
    by (simp add: match_literal_iff)
  from True assms(1) have ne: "take (length k) rest \<noteq> []"
    and h: "is_word (hd (take (length k) rest))" and l: "is_word (last (take (length k) rest))"
    using ci_equal_hd [of "take (length k) rest" k] assms(2,3) by auto
  from ne have "rest \<noteq> []"
    by auto
  with h assms(1) have "starts_with_word rest"
    by (cases rest; cases k) auto
  with True ml l assms(1) show ?thesis
    by (auto simp: match_here_def word_boundary_def)
qed

lemma standalone_at_iff_match_here:
  assumes "k \<noteq> []" and "is_word (hd k)" and "is_word (last k)" and "i \<le> length text"
  shows "standalone_at k text i \<longleftrightarrow>
           match_here k (0 < i \<and> is_word (text ! (i - 1))) (drop i text)"
proof -
  have "\<not> starts_with_word (drop (length k) (drop i text)) \<longleftrightarrow>
          (length text \<le> i + length k \<or> \<not> is_word (text ! (i + length k)))"
    by (auto simp: starts_with_word_hd hd_drop_conv_nth add.commute)
  with assms(4) show ?thesis
    unfolding match_here_iff [OF assms(1-3)] standalone_at_def
    by auto
qed

lemma match_here_Nil: "k \<noteq> [] \<Longrightarrow> \<not> match_here k prev_is_word []"
  by (cases k) (simp_all add: match_here_def)

lemma scan_Nil: "k \<noteq> [] \<Longrightarrow> re_sub_from k repl prev_is_word [] = []"
  by (simp add: match_here_Nil)

lemma scan_match:
  "k \<noteq> [] \<Longrightarrow> match_here k prev_is_word (c # cs) \<Longrightarrow>
   re_sub_from k repl prev_is_word (c # cs) =
     repl (take (length k) (c # cs)) @
     re_sub_from k repl (is_word (last (take (length k) (c # cs)))) (drop (length k) (c # cs))"
  by simp

lemma scan_skip:
  "\<not> match_here k prev_is_word (c # cs) \<Longrightarrow>
   re_sub_from k repl prev_is_word (c # cs) = c # re_sub_from k repl (is_word c) cs"
  by simp

declare re_sub_from.simps [simp del]

lemma wrapped_Cons: "wrapped k = CHR ''*'' # CHR ''*'' # k @ ''**''"
  by (simp add: wrapped_def)

lemma copied_prefix:
  assumes k: "k \<noteq> []"
  shows "CHR ''*'' \<notin> set u \<Longrightarrow>
     prefix (u @ [CHR ''*'']) (re_sub_from k (\<lambda>matched. wrapped k) prev_is_word t) \<Longrightarrow>
     prefix u t \<and>
     prefix [CHR ''*'']
       (re_sub_from k (\<lambda>matched. wrapped k) (if u = [] then prev_is_word else is_word (last u))
          (drop (length u) t))"
proof (induction u arbitrary: prev_is_word t)
  case Nil
  then show ?case by simp
next
  case (Cons x u)
  from Cons.prems(1) have x: "x \<noteq> CHR ''*''" and u: "CHR ''*'' \<notin> set u"
    by auto
  show ?case
  proof (cases t)
    case Nil
    with Cons.prems(2) k show ?thesis
      by (simp add: scan_Nil)
  next
    case (Cons c cs)
    show ?thesis
    proof (cases "match_here k prev_is_word (c # cs)")
      case True
      with Cons.prems(2) x k Cons show ?thesis
        by (simp add: scan_match wrapped_Cons)
    next
      case False
      with Cons.prems(2) Cons have c: "c = x"
        and p: "prefix (u @ [CHR ''*'']) (re_sub_from k (\<lambda>matched. wrapped k) (is_word x) cs)"
        by (simp_all add: scan_skip)
      from Cons.IH [OF u p] c Cons show ?thesis
        by (cases u) simp_all
    qed
  qed
qed

text \<open>Where the pattern does not match, the output does not begin with the wrapped form.\<close>

lemma no_wrapped_at_skip:
  assumes k: "k \<noteq> []" "is_word (hd k)" "is_word (last k)" "CHR ''*'' \<notin> set k"
    and no: "\<not> match_here k prev_is_word (c # cs)"
  shows "\<not> prefix (wrapped k) (c # re_sub_from k (\<lambda>matched. wrapped k) (is_word c) cs)"
proof
  define scan where "scan = re_sub_from k (\<lambda>matched. wrapped k)"
  have scan_Nil': "scan p [] = []" for p
    unfolding scan_def using k(1) by (rule scan_Nil)
  have scan_match': "scan p (x # xs) =
      wrapped k @ scan (is_word (last (take (length k) (x # xs)))) (drop (length k) (x # xs))"
    if "match_here k p (x # xs)" for p x xs
    unfolding scan_def using scan_match [OF k(1) that] by simp
  have scan_skip': "scan p (x # xs) = x # scan (is_word x) xs"
    if "\<not> match_here k p (x # xs)" for p x xs
    unfolding scan_def using that by (rule scan_skip)
  obtain k0 ks where kk: "k = k0 # ks"
    using k(1) by (cases k) auto
  with k(2) have k0: "k0 \<noteq> CHR ''*''"
    using star_not_word by auto
  assume "prefix (wrapped k) (c # re_sub_from k (\<lambda>matched. wrapped k) (is_word c) cs)"
  then have "prefix (CHR ''*'' # CHR ''*'' # k @ ''**'') (c # scan (is_word c) cs)"
    unfolding scan_def [symmetric] by (simp only: wrapped_Cons)
  then have c: "c = CHR ''*''" and p1: "prefix (CHR ''*'' # k @ ''**'') (scan (is_word c) cs)"
    by auto
  from c have nw: "is_word c = False"
    by (simp add: star_not_word)
  show False
  proof (cases cs)
    case Nil
    with p1 show False
      by (simp add: scan_Nil')
  next
    case (Cons d ds)
    show False
    proof (cases "match_here k False (d # ds)")
      case True
      from p1 have "prefix (CHR ''*'' # k @ ''**'') (wrapped k @ scan (is_word (last (take (length k) (d # ds)))) (drop (length k) (d # ds)))"
        unfolding nw Cons scan_match' [OF True] .
      then show False
        using k0 by (simp add: wrapped_Cons kk)
    next
      case False
      from p1 have "prefix (CHR ''*'' # k @ ''**'') (d # scan (is_word d) ds)"
        unfolding nw Cons scan_skip' [OF False] .
      then have d: "d = CHR ''*''" and p2: "prefix (k @ ''**'') (scan (is_word d) ds)"
        by auto
      from d have nd: "is_word d = False"
        by (simp add: star_not_word)
      have "prefix (k @ [CHR ''*'']) (k @ ''**'')"
        by simp
      with p2 have p3: "prefix (k @ [CHR ''*'']) (scan False ds)"
        unfolding nd by (rule prefix_order.trans [rotated])
      from copied_prefix [OF k(1) k(4) p3 [unfolded scan_def]] k(1,3)
      have pk: "prefix k ds" and p4: "prefix [CHR ''*''] (scan True (drop (length k) ds))"
        by (simp_all add: scan_def)
      have "\<not> starts_with_word (drop (length k) ds)"
      proof (cases "drop (length k) ds")
        case Nil
        then show ?thesis by simp
      next
        case (Cons f fs)
        have "\<not> match_here k True (f # fs)"
          by (simp add: match_here_iff [OF k(1-3)])
        from p4 have "f = CHR ''*''"
          unfolding Cons scan_skip' [OF \<open>\<not> match_here k True (f # fs)\<close>] by simp
        with Cons show ?thesis
          by (simp add: star_not_word)
      qed
      moreover from pk have "take (length k) ds = k" and "length k \<le> length ds"
        by (auto simp: prefix_def)
      ultimately have m: "match_here k False ds"
        by (simp add: match_here_iff [OF k(1-3)] ci_equal_def)
      then obtain e es where ds: "ds = e # es"
        using match_here_Nil [OF k(1)] by (cases ds) auto
      from m have m': "match_here k False (e # es)"
        by (simp add: ds)
      from p3 have "prefix (k @ [CHR ''*''])
          (wrapped k @ scan (is_word (last (take (length k) (e # es)))) (drop (length k) (e # es)))"
        unfolding ds scan_match' [OF m'] .
      then show False
        using k0 by (simp add: wrapped_Cons kk)
    qed
  qed
qed

declare str_count.simps [simp del] count_standalone_from.simps [simp del]

lemma str_count_Nil: "sub \<noteq> [] \<Longrightarrow> str_count sub [] = 0"
  by (subst str_count.simps) simp

lemma str_count_prefix: "sub \<noteq> [] \<Longrightarrow> str_count sub (sub @ xs) = Suc (str_count sub xs)"
  by (subst str_count.simps) simp

lemma str_count_skip:
  "sub \<noteq> [] \<Longrightarrow> \<not> prefix sub (x # xs) \<Longrightarrow> str_count sub (x # xs) = str_count sub xs"
  by (subst str_count.simps) simp

lemma str_count_short: "length t < length sub \<Longrightarrow> str_count sub t = 0"
proof (induction t)
  case Nil
  then show ?case by (simp add: str_count_Nil)
next
  case (Cons x t)
  then have "\<not> prefix sub (x # t)" and "sub \<noteq> []"
    by (auto dest: prefix_length_le)
  with Cons show ?case
    by (simp add: str_count_skip)
qed

lemma match_here_length: "match_here k prev_is_word rest \<Longrightarrow> length k \<le> length rest"
  using match_literal_iff [of k rest]
  by (cases "match_literal k rest") (auto simp: match_here_def split: if_splits)

lemma scan_short: "length t < length k \<Longrightarrow> re_sub_from k repl prev_is_word t = t"
proof (induction t arbitrary: prev_is_word)
  case Nil
  then show ?case by (simp add: scan_Nil)
next
  case (Cons c cs)
  then have "\<not> match_here k prev_is_word (c # cs)"
    by (auto dest: match_here_length)
  with Cons show ?case
    by (simp add: scan_skip)
qed

lemma wrapped_not_Nil: "wrapped k \<noteq> []"
  by (simp add: wrapped_def)

lemma count_standalone_from_stop:
  "k = [] \<or> length t < i + length k \<Longrightarrow> count_standalone_from k t i = 0"
  by (subst count_standalone_from.simps) simp

lemma count_standalone_from_hit:
  "\<not> (k = [] \<or> length text < i + length k) \<Longrightarrow> standalone_at k text i \<Longrightarrow>
   count_standalone_from k text i = Suc (count_standalone_from k text (i + length k))"
  by (subst count_standalone_from.simps) simp

lemma count_standalone_from_miss:
  "\<not> (k = [] \<or> length text < i + length k) \<Longrightarrow> \<not> standalone_at k text i \<Longrightarrow>
   count_standalone_from k text i = count_standalone_from k text (Suc i)"
  by (subst count_standalone_from.simps) simp

text \<open>The two steps of the scan at index \<open>i\<close> of a text.\<close>

lemma scan_at_hit:
  assumes k: "k \<noteq> []" "is_word (hd k)" "is_word (last k)"
    and i: "i + length k \<le> length t" and s: "standalone_at k t i"
  shows "re_sub_from k repl (0 < i \<and> is_word (t ! (i - 1))) (drop i t) =
           repl (take (length k) (drop i t)) @
           re_sub_from k repl (0 < i + length k \<and> is_word (t ! (i + length k - 1)))
             (drop (i + length k) t)"
proof -
  from k(1) i have lt: "i < length t"
    by (cases k) auto
  then have d: "t ! i # drop (Suc i) t = drop i t"
    by (rule Cons_nth_drop_Suc)
  from s have "match_here k (0 < i \<and> is_word (t ! (i - 1))) (drop i t)"
    using standalone_at_iff_match_here [OF k, of i t] lt by simp
  then have m: "match_here k (0 < i \<and> is_word (t ! (i - 1))) (t ! i # drop (Suc i) t)"
    by (simp only: d)
  have step: "re_sub_from k repl (0 < i \<and> is_word (t ! (i - 1))) (drop i t) =
      repl (take (length k) (drop i t)) @
      re_sub_from k repl (is_word (last (take (length k) (drop i t)))) (drop (length k + i) t)"
    using scan_match [OF k(1) m, of repl] by (simp only: d drop_drop)
  have "take (length k) (drop i t) \<noteq> []"
    using k(1) lt by simp
  moreover have "i + (length k - 1) = i + length k - 1"
    using k(1) by (cases k) simp_all
  ultimately have "last (take (length k) (drop i t)) = t ! (i + length k - 1)"
    using i k(1) by (simp add: last_conv_nth min_absorb2)
  moreover have "0 < i + length k"
    using k(1) by simp
  moreover have "length k + i = i + length k"
    by simp
  ultimately show ?thesis
    using step by (simp only: simp_thms)
qed

lemma scan_at_miss:
  assumes k: "k \<noteq> []" "is_word (hd k)" "is_word (last k)"
    and i: "i < length t" and s: "\<not> standalone_at k t i"
  shows "re_sub_from k repl (0 < i \<and> is_word (t ! (i - 1))) (drop i t) =
           t ! i # re_sub_from k repl (0 < Suc i \<and> is_word (t ! (Suc i - 1))) (drop (Suc i) t)"
    and "\<not> match_here k (0 < i \<and> is_word (t ! (i - 1))) (t ! i # drop (Suc i) t)"
proof -
  from i have d: "drop i t = t ! i # drop (Suc i) t"
    by (simp add: Cons_nth_drop_Suc)
  from s show m: "\<not> match_here k (0 < i \<and> is_word (t ! (i - 1))) (t ! i # drop (Suc i) t)"
    using standalone_at_iff_match_here [OF k, of i t] i d by simp
  show "re_sub_from k repl (0 < i \<and> is_word (t ! (i - 1))) (drop i t) =
           t ! i # re_sub_from k repl (0 < Suc i \<and> is_word (t ! (Suc i - 1))) (drop (Suc i) t)"
    using scan_skip [OF m, of repl] d by simp
qed

lemma count_scan:
  "k \<noteq> [] \<Longrightarrow> is_word (hd k) \<Longrightarrow> is_word (last k) \<Longrightarrow> CHR ''*'' \<notin> set k \<Longrightarrow> i \<le> length t \<Longrightarrow>
     str_count (wrapped k)
       (re_sub_from k (\<lambda>matched. wrapped k) (0 < i \<and> is_word (t ! (i - 1))) (drop i t)) =
     count_standalone_from k t i"
proof (induction k t i rule: count_standalone_from.induct)
  case (1 k t i)
  note k = "1.prems"(1-3) and star = "1.prems"(4)
  show ?case
  proof (cases "length t < i + length k")
    case True
    with "1.prems"(5) have "length (drop i t) < length k"
      by simp
    then have "re_sub_from k (\<lambda>matched. wrapped k) (0 < i \<and> is_word (t ! (i - 1))) (drop i t) =
        drop i t"
      by (rule scan_short)
    moreover have "length (drop i t) < length (wrapped k)"
      using True by (simp add: wrapped_def)
    ultimately show ?thesis
      using True by (simp add: str_count_short count_standalone_from_stop)
  next
    case False
    then have go: "\<not> (k = [] \<or> length t < i + length k)" and le: "i + length k \<le> length t"
      using k(1) by simp_all
    from le k(1) have lt: "i < length t"
      by (cases k) auto
    show ?thesis
    proof (cases "standalone_at k t i")
      case True
      have "str_count (wrapped k)
          (re_sub_from k (\<lambda>matched. wrapped k) (0 < i \<and> is_word (t ! (i - 1))) (drop i t)) =
        str_count (wrapped k)
          (wrapped k @ re_sub_from k (\<lambda>matched. wrapped k)
             (0 < i + length k \<and> is_word (t ! (i + length k - 1))) (drop (i + length k) t))"
        by (simp only: scan_at_hit [OF k le True])
      also have "\<dots> = Suc (str_count (wrapped k)
          (re_sub_from k (\<lambda>matched. wrapped k)
             (0 < i + length k \<and> is_word (t ! (i + length k - 1))) (drop (i + length k) t)))"
        by (rule str_count_prefix [OF wrapped_not_Nil])
      also have "\<dots> = Suc (count_standalone_from k t (i + length k))"
        by (simp only: "1.IH"(1) [OF go True k star le])
      also have "\<dots> = count_standalone_from k t i"
        by (simp only: count_standalone_from_hit [OF go True])
      finally show ?thesis .
    next
      case False
      from lt have "Suc i \<le> length t"
        by simp
      note ih = "1.IH"(2) [OF go False k star this]
      have "\<not> prefix (wrapped k)
          (t ! i # re_sub_from k (\<lambda>matched. wrapped k) (is_word (t ! i)) (drop (Suc i) t))"
        by (rule no_wrapped_at_skip [OF k star scan_at_miss(2) [OF k lt False]])
      then have np: "\<not> prefix (wrapped k)
          (t ! i # re_sub_from k (\<lambda>matched. wrapped k)
             (0 < Suc i \<and> is_word (t ! (Suc i - 1))) (drop (Suc i) t))"
        by simp
      have "str_count (wrapped k)
          (re_sub_from k (\<lambda>matched. wrapped k) (0 < i \<and> is_word (t ! (i - 1))) (drop i t)) =
        str_count (wrapped k)
          (t ! i # re_sub_from k (\<lambda>matched. wrapped k)
             (0 < Suc i \<and> is_word (t ! (Suc i - 1))) (drop (Suc i) t))"
        by (simp only: scan_at_miss(1) [OF k lt False])
      also have "\<dots> = str_count (wrapped k)
          (re_sub_from k (\<lambda>matched. wrapped k)
             (0 < Suc i \<and> is_word (t ! (Suc i - 1))) (drop (Suc i) t))"
        by (rule str_count_skip [OF wrapped_not_Nil np])
      also have "\<dots> = count_standalone_from k t (Suc i)"
        by (simp only: ih)
      also have "\<dots> = count_standalone_from k t i"
        by (simp only: count_standalone_from_miss [OF go False])
      finally show ?thesis .
    qed
  qed
qed

lemma contains_scan:
  "k \<noteq> [] \<Longrightarrow> is_word (hd k) \<Longrightarrow> is_word (last k) \<Longrightarrow> i \<le> length t \<Longrightarrow>
   0 < count_standalone_from k t i \<Longrightarrow>
   sublist (wrapped k)
     (re_sub_from k (\<lambda>matched. wrapped k) (0 < i \<and> is_word (t ! (i - 1))) (drop i t))"
proof (induction k t i rule: count_standalone_from.induct)
  case (1 k t i)
  note k = "1.prems"(1-3)
  from "1.prems"(5) have go: "\<not> (k = [] \<or> length t < i + length k)"
    using count_standalone_from_stop [of k t i] by auto
  then have le: "i + length k \<le> length t"
    by simp
  with k(1) have lt: "i < length t"
    by (cases k) auto
  show ?case
  proof (cases "standalone_at k t i")
    case True
    show ?thesis
      by (simp only: scan_at_hit [OF k le True]) (rule sublist_append_rightI)
  next
    case False
    from "1.prems"(5) have "0 < count_standalone_from k t (Suc i)"
      by (simp only: count_standalone_from_miss [OF go False])
    moreover from lt have "Suc i \<le> length t"
      by simp
    ultimately have "sublist (wrapped k)
        (re_sub_from k (\<lambda>matched. wrapped k) (0 < Suc i \<and> is_word (t ! (Suc i - 1))) (drop (Suc i) t))"
      using "1.IH"(2) [OF go False k] by simp
    then have "sublist (wrapped k)
        ([t ! i] @ re_sub_from k (\<lambda>matched. wrapped k) (0 < Suc i \<and> is_word (t ! (Suc i - 1)))
           (drop (Suc i) t))"
      by (rule sublist_behind)
    then show ?thesis
      by (simp only: scan_at_miss(1) [OF k lt False] append_Cons append_Nil)
  qed
qed

lemma highlight_one:
  assumes "CHR 0x5C \<notin> set k"
  shows "highlight_keywords tc t [k] = Inr (re_sub_from k (\<lambda>matched. wrapped k) False t)"
  using assms by (simp add: re_sub_word_def wrapped_def)

text \<open>
  C6, as the claim states it, fails. The keyword \<open>C++\<close> stands in \<open>C++ rocks\<close> as a token of
  its own, at the start of the text and followed by a space. The pattern asks for a word
  boundary behind the last \<open>+\<close>, and between \<open>+\<close> and the space there is none: nothing is
  replaced and the result does not hold the wrapped form.
\<close>

theorem highlight_standalone_counterexample:
  "standalone_at ''C++'' ''C++ rocks'' 0 \<and>
   count_standalone ''C++'' ''C++ rocks'' = 1 \<and>
   highlight_keywords no_templates ''C++ rocks'' [''C++''] = Inr ''C++ rocks'' \<and>
   \<not> sublist (wrapped ''C++'') ''C++ rocks'' \<and>
   str_count (wrapped ''C++'') ''C++ rocks'' = 0"
  by code_simp

text \<open>
  Two more limits of the claim. A keyword that holds asterisks can give more wrapped
  forms in the result than were put there, the asterisks of one replacement and those of
  the text around it forming another. And standalone occurrences that overlap are not
  all replaced: the scan goes on behind each match.
\<close>

lemma asterisk_keyword_example:
  "count_standalone ''a****a'' ''**a**a****a**a**'' = 1 \<and>
   highlight_keywords no_templates ''**a**a****a**a**'' [''a****a''] = Inr ''**a****a****a****a**'' \<and>
   str_count (wrapped ''a****a'') ''**a****a****a****a**'' = 2"
  by code_simp

lemma overlapping_occurrences_example:
  "filter (standalone_at ''a a'' ''a a a'') [0 ..< Suc (length ''a a a'')] = [0, 2] \<and>
   count_standalone ''a a'' ''a a a'' = 1 \<and>
   highlight_keywords no_templates ''a a a'' [''a a''] = Inr ''**a a** a'' \<and>
   str_count (wrapped ''a a'') ''**a a** a'' = 1"
  by code_simp

lemma whole_word_example:
  "highlight_keywords no_templates ''Inflation is inflationary'' [''inflation''] =
     Inr ''**inflation** is inflationary''"
  by code_simp

text \<open>
  C6, amended. Let the text and the keyword be made of code points up to U+00FF (the
  strings of this model), and let the keyword be not empty, begin and end with a word
  character and hold no backslash. Then highlighting the text with it succeeds; if the
  keyword has a standalone occurrence in the text (it stands there up to case, that is
  equal to the keyword after lower-casing each character, with no word character right
  before or right behind it), the result holds the wrapped form; and if the keyword holds
  no asterisk either, the wrapped form occurs in the result, counted from the left
  without overlap, as often as the keyword has standalone occurrences in the text,
  counted from the left without overlap. Beyond U+00FF matching without regard to case is
  no longer equality after lower-casing, and the statement is not made there.
\<close>

theorem highlight_single_keyword:
  assumes "k \<noteq> []" and "is_word (hd k)" and "is_word (last k)" and "CHR 0x5C \<notin> set k"
  shows "\<exists>out. highlight_keywords tc text [k] = Inr out \<and>
     (0 < count_standalone k text \<longrightarrow> sublist (wrapped k) out) \<and>
     (CHR ''*'' \<notin> set k \<longrightarrow> str_count (wrapped k) out = count_standalone k text)"
proof -
  have "0 < count_standalone k text \<longrightarrow>
      sublist (wrapped k) (re_sub_from k (\<lambda>matched. wrapped k) False text)"
    using contains_scan [OF assms(1-3), of 0 "text"] by (simp add: count_standalone_def)
  moreover have "CHR ''*'' \<notin> set k \<longrightarrow>
      str_count (wrapped k) (re_sub_from k (\<lambda>matched. wrapped k) False text) = count_standalone k text"
    using count_scan [OF assms(1-3), of 0 "text"] by (simp add: count_standalone_def)
  ultimately show ?thesis
    using highlight_one [OF assms(4)] by simp
qed

theorem highlight_single_keyword_witness:
  "''fed'' \<noteq> [] \<and> is_word (hd ''fed'') \<and> is_word (last ''fed'') \<and> CHR 0x5C \<notin> set ''fed'' \<and>
   0 < count_standalone ''fed'' ''The Fed fed.'' \<and> CHR ''*'' \<notin> set ''fed'' \<and>
   (\<exists>out. highlight_keywords no_templates ''The Fed fed.'' [''fed''] = Inr out \<and>
      sublist (wrapped ''fed'') out \<and>
      str_count (wrapped ''fed'') out = count_standalone ''fed'' ''The Fed fed.'')"
proof -
  have h1: "''fed'' \<noteq> []"
    by simp
  have h2: "is_word (hd ''fed'')" and h3: "is_word (last ''fed'')"
    by code_simp+
  have h4: "CHR 0x5C \<notin> set ''fed''" and h5: "CHR ''*'' \<notin> set ''fed''"
    by simp_all
  have h6: "0 < count_standalone ''fed'' ''The Fed fed.''"
    by code_simp
  show ?thesis
    using h1 h2 h3 h4 h5 h6
      highlight_single_keyword [OF h1 h2 h3 h4, of no_templates "''The Fed fed.''"]
    by blast
qed

end
